theory Spec2Isabelle
  imports Main
begin

section \<open>Dates\<close>

text \<open>
  A JavaScript \<open>Date\<close> holds a time value in milliseconds, or NaN (the Invalid Date).
  Time values are read in local time; the zone's offset is taken as constant, so the
  local time value is modelled directly and a local day is \<open>msPerDay\<close> milliseconds
  long. A time value is at most \<open>maxTime\<close> in absolute value (100 000 000 days):
  \<open>TimeClip\<close> turns a result beyond that into the Invalid Date, and every function that
  builds or moves a date ends with it (the offset is taken as zero at the two ends of
  the range). Numbers are integers or NaN (\<open>None\<close>).

  The calendar functions are those of ECMAScript (\<open>Day\<close>, \<open>DayFromYear\<close>,
  \<open>YearFromTime\<close>, \<open>MonthFromTime\<close>, \<open>DateFromTime\<close>, \<open>WeekDay\<close>, \<open>MakeDay\<close>).
  ECMAScript defines \<open>YearFromTime t\<close> as the largest year whose first day is not
  after \<open>t\<close>; \<open>YearFromDay\<close> computes it from an estimate that is off by at most one
  (lemmas \<open>YearFromDay_bounds\<close> and \<open>YearFromDay_unique\<close> below).
\<close>

datatype Date = Invalid | Time int

type_synonym number = "int option"

definition msPerDay :: int where
  "msPerDay = 86400000"

definition maxTime :: int where
  "maxTime = 8640000000000000"

definition TimeClip :: "int \<Rightarrow> Date" where
  "TimeClip t = (if \<bar>t\<bar> \<le> maxTime then Time t else Invalid)"

definition Day :: "int \<Rightarrow> int" where
  "Day t = t div msPerDay"

definition DaysInYear :: "int \<Rightarrow> int" where
  "DaysInYear y =
     (if y mod 4 \<noteq> 0 then 365
      else if y mod 100 \<noteq> 0 then 366
      else if y mod 400 \<noteq> 0 then 365
      else 366)"

definition DayFromYear :: "int \<Rightarrow> int" where
  "DayFromYear y =
     365 * (y - 1970) + (y - 1969) div 4 - (y - 1901) div 100 + (y - 1601) div 400"

definition YearFromDay :: "int \<Rightarrow> int" where
  "YearFromDay d =
     (let y = 1970 + (400 * d) div 146097
      in if d < DayFromYear y then y - 1
         else if DayFromYear (y + 1) \<le> d then y + 1
         else y)"

definition YearFromTime :: "int \<Rightarrow> int" where
  "YearFromTime t = YearFromDay (Day t)"

definition InLeapYear :: "int \<Rightarrow> int" where
  "InLeapYear t = (if DaysInYear (YearFromTime t) = 366 then 1 else 0)"

definition DayWithinYear :: "int \<Rightarrow> int" where
  "DayWithinYear t = Day t - DayFromYear (YearFromTime t)"

definition MonthFromTime :: "int \<Rightarrow> int" where
  "MonthFromTime t =
     (let d = DayWithinYear t; l = InLeapYear t
      in if d < 31 then 0
         else if d < 59 + l then 1
         else if d < 90 + l then 2
         else if d < 120 + l then 3
         else if d < 151 + l then 4
         else if d < 181 + l then 5
         else if d < 212 + l then 6
         else if d < 243 + l then 7
         else if d < 273 + l then 8
         else if d < 304 + l then 9
         else if d < 334 + l then 10
         else 11)"

definition DateFromTime :: "int \<Rightarrow> int" where
  "DateFromTime t =
     (let d = DayWithinYear t; l = InLeapYear t; m = MonthFromTime t
      in if m = 0 then d + 1
         else if m = 1 then d - 30
         else if m = 2 then d - 58 - l
         else if m = 3 then d - 89 - l
         else if m = 4 then d - 119 - l
         else if m = 5 then d - 150 - l
         else if m = 6 then d - 180 - l
         else if m = 7 then d - 211 - l
         else if m = 8 then d - 242 - l
         else if m = 9 then d - 272 - l
         else if m = 10 then d - 303 - l
         else d - 333 - l)"


text \<open>
  \<open>MakeDay year month date\<close> is the day number of the given date of the month
  \<open>month mod 12\<close> of the year \<open>year + month div 12\<close>; \<open>date\<close> may lie outside the month.
  \<open>DaysBeforeMonth\<close> is the day within the year on which a month starts.
\<close>

definition DaysBeforeMonth :: "int \<Rightarrow> int \<Rightarrow> int" where
  "DaysBeforeMonth y mn =
     (let l = (if DaysInYear y = 366 then 1 else 0)
      in if mn = 0 then 0
         else if mn = 1 then 31
         else if mn = 2 then 59 + l
         else if mn = 3 then 90 + l
         else if mn = 4 then 120 + l
         else if mn = 5 then 151 + l
         else if mn = 6 then 181 + l
         else if mn = 7 then 212 + l
         else if mn = 8 then 243 + l
         else if mn = 9 then 273 + l
         else if mn = 10 then 304 + l
         else 334 + l)"

definition MakeDay :: "int \<Rightarrow> int \<Rightarrow> int \<Rightarrow> int" where
  "MakeDay year month date =
     (let ym = year + month div 12; mn = month mod 12
      in DayFromYear ym + DaysBeforeMonth ym mn + date - 1)"

definition DaysInMonth :: "int \<Rightarrow> int \<Rightarrow> int" where
  "DaysInMonth y mn =
     (if mn = 1 then (if DaysInYear y = 366 then 29 else 28)
      else if mn = 3 \<or> mn = 5 \<or> mn = 8 \<or> mn = 10 then 30
      else 31)"

text \<open>
  \<open>new Date(year, monthIndex, day)\<close>: a NaN argument gives the Invalid Date, and a
  year from 0 to 99 stands for 1900 to 1999.
\<close>

fun new_Date :: "number \<Rightarrow> number \<Rightarrow> number \<Rightarrow> Date" where
  "new_Date (Some y) (Some m) (Some d) =
     TimeClip (MakeDay (if 0 \<le> y \<and> y \<le> 99 then 1900 + y else y) m d * msPerDay)"
| "new_Date _ _ _ = Invalid"

fun getFullYear :: "Date \<Rightarrow> number" where
  "getFullYear Invalid = None"
| "getFullYear (Time t) = Some (YearFromTime t)"

fun getMonth :: "Date \<Rightarrow> number" where
  "getMonth Invalid = None"
| "getMonth (Time t) = Some (MonthFromTime t)"

fun getDate :: "Date \<Rightarrow> number" where
  "getDate Invalid = None"
| "getDate (Time t) = Some (DateFromTime t)"


subsection \<open>The date-fns functions the calendar uses\<close>

text \<open>
  These follow date-fns 3 and later, where a comparison with the Invalid Date is
  false, \<open>isWithinInterval\<close> orders the two ends of its interval before comparing and
  \<open>eachDayOfInterval\<close> lists the days of a reversed interval backwards and lists nothing
  when an end is invalid. The week starts on Sunday (the library's default).
  \<open>endOfMonth\<close> and \<open>endOfWeek\<close> move the date to its day and then set the time of
  day to the last millisecond; whenever the final time value is in range so is the one
  in between, so one \<open>TimeClip\<close> stands for both.
\<close>

fun isBefore :: "Date \<Rightarrow> Date \<Rightarrow> bool" where
  "isBefore (Time a) (Time b) = (a < b)"
| "isBefore _ _ = False"

fun isAfter :: "Date \<Rightarrow> Date \<Rightarrow> bool" where
  "isAfter (Time a) (Time b) = (a > b)"
| "isAfter _ _ = False"

fun startOfDay :: "Date \<Rightarrow> Date" where
  "startOfDay Invalid = Invalid"
| "startOfDay (Time t) = TimeClip (Day t * msPerDay)"

fun endOfDay :: "Date \<Rightarrow> Date" where
  "endOfDay Invalid = Invalid"
| "endOfDay (Time t) = TimeClip (Day t * msPerDay + (msPerDay - 1))"

fun isSameDay :: "Date \<Rightarrow> Date \<Rightarrow> bool" where
  "isSameDay (Time a) (Time b) = (Day a * msPerDay = Day b * msPerDay)"
| "isSameDay _ _ = False"

fun isWithinInterval :: "Date \<Rightarrow> Date \<Rightarrow> Date \<Rightarrow> bool" where
  "isWithinInterval (Time t) (Time s) (Time e) = (min s e \<le> t \<and> t \<le> max s e)"
| "isWithinInterval _ _ _ = False"







section \<open>Trips and the draft range (types.ts)\<close>

record DateRange =
  startDate :: "Date option"
  endDate :: "Date option"

text \<open>
  The client copies the \<open>id\<close> of an entry of the store's list as it is, so the \<open>id\<close> of
  a trip is \<open>undefined\<close> (\<open>None\<close>) when the entry has none.
\<close>

record Trip =
  id :: "string option"
  startDate :: Date
  endDate :: Date
  lastUpdated :: "string option"

section \<open>The calendar (components/Calendar.tsx)\<close>

text \<open>
  \<open>handleDateClick\<close> returns what the handler passes on: the arguments of \<open>onDayClick\<close>
  (the clicked date and the first trip whose days contain it) and the draft given to
  \<open>onDraftChange\<close>, \<open>None\<close> when \<open>onDraftChange\<close> is not called. A \<open>Date\<close> object is
  truthy also when invalid, so the tests on the draft's dates are tests for \<open>null\<close>.
\<close>

definition getTripForDate :: "Trip list \<Rightarrow> Date \<Rightarrow> Trip option" where
  "getTripForDate trips date =
     find (\<lambda>t. isWithinInterval date (startOfDay (Trip.startDate t)) (endOfDay (Trip.endDate t)))
       trips"

definition handleDateClick ::
  "Trip list \<Rightarrow> bool \<Rightarrow> DateRange \<Rightarrow> Date \<Rightarrow> (Date \<times> Trip option) \<times> DateRange option" where
  "handleDateClick trips readOnly draftRange date =
     (let clickedTrip =
            find (\<lambda>t. isWithinInterval date (startOfDay (Trip.startDate t))
                         (endOfDay (Trip.endDate t))) trips
      in ((date, clickedTrip),
          (if readOnly then None
           else case (DateRange.startDate draftRange, DateRange.endDate draftRange) of
               (None, None) \<Rightarrow>
                 Some \<lparr>DateRange.startDate = Some date, endDate = None\<rparr>
             | (Some s, None) \<Rightarrow>
                 (if isBefore date s
                  then Some \<lparr>DateRange.startDate = Some date, endDate = None\<rparr>
                  else if isSameDay date s
                  then Some \<lparr>DateRange.startDate = None, endDate = None\<rparr>
                  else Some \<lparr>DateRange.startDate = Some s, endDate = Some date\<rparr>)
             | (Some s, Some e) \<Rightarrow>
                 Some \<lparr>DateRange.startDate = Some date, endDate = None\<rparr>
             | (None, Some e) \<Rightarrow> None)))"


definition isInDraft :: "DateRange \<Rightarrow> Date \<Rightarrow> bool" where
  "isInDraft draftRange date =
     (case (DateRange.startDate draftRange, DateRange.endDate draftRange) of
        (Some s, Some e) \<Rightarrow> isAfter date s \<and> isBefore date e
      | _ \<Rightarrow> False)"

text \<open>The flags computed for one day cell of the grid.\<close>

record DayCell =
  isDraftStart :: bool
  isDraftEnd :: bool
  isDraftRange :: bool
  existingTrip :: "Trip option"
  isTripStart :: bool
  isTripEnd :: bool
  isTripRange :: bool
  isStart :: bool
  isEnd :: bool
  isRange :: bool
  isSavedTrip :: bool

definition dayCell :: "Trip list \<Rightarrow> DateRange \<Rightarrow> Date \<Rightarrow> DayCell" where
  "dayCell trips draftRange day =
     (let isDraftStart =
            (case DateRange.startDate draftRange of Some s \<Rightarrow> isSameDay day s | None \<Rightarrow> False);
          isDraftEnd =
            (case DateRange.endDate draftRange of Some e \<Rightarrow> isSameDay day e | None \<Rightarrow> False);
          isDraftRange = isInDraft draftRange day;
          existingTrip = getTripForDate trips day;
          isTripStart =
            (case existingTrip of Some t \<Rightarrow> isSameDay day (Trip.startDate t) | None \<Rightarrow> False);
          isTripEnd =
            (case existingTrip of Some t \<Rightarrow> isSameDay day (Trip.endDate t) | None \<Rightarrow> False);
          isTripRange = (existingTrip \<noteq> None \<and> \<not> isTripStart \<and> \<not> isTripEnd);
          isStart = (isDraftStart \<or> (DateRange.startDate draftRange = None \<and> isTripStart));
          isEnd = (isDraftEnd \<or> (DateRange.endDate draftRange = None \<and> isTripEnd));
          isRange = (isDraftRange \<or> (\<not> isDraftRange \<and> isTripRange));
          isSavedTrip =
            (existingTrip \<noteq> None \<and> \<not> isDraftStart \<and> \<not> isDraftEnd \<and> \<not> isDraftRange)
      in \<lparr>isDraftStart = isDraftStart, isDraftEnd = isDraftEnd, isDraftRange = isDraftRange,
          existingTrip = existingTrip, isTripStart = isTripStart, isTripEnd = isTripEnd,
          isTripRange = isTripRange, isStart = isStart, isEnd = isEnd, isRange = isRange,
          isSavedTrip = isSavedTrip\<rparr>)"

text \<open>
  The auto-navigation effect: the month shown after the effect has run, given the current
  time \<open>now\<close> and the month shown before.
\<close>

definition autoNavigate :: "Date \<Rightarrow> DateRange \<Rightarrow> Trip list \<Rightarrow> Date \<Rightarrow> Date" where
  "autoNavigate now draftRange trips currentMonth =
     (case DateRange.startDate draftRange of
        Some s \<Rightarrow> s
      | None \<Rightarrow>
          if length trips > 0
          then (case find (\<lambda>t. isAfter (Trip.startDate t) now) trips of
                  Some futureTrip \<Rightarrow> Trip.startDate futureTrip
                | None \<Rightarrow> Trip.startDate (trips ! (length trips - 1)))
          else currentMonth)"

section \<open>The remote store client (utils/api.ts)\<close>

subsection \<open>Strings\<close>

text \<open>
  \<open>split_on p s\<close> is \<open>s.split(r)\<close> for a regular expression \<open>r\<close> that matches exactly
  the single characters satisfying \<open>p\<close>; \<open>String_includes s n\<close> is \<open>s.includes(n)\<close>.
\<close>

fun split_on :: "(char \<Rightarrow> bool) \<Rightarrow> string \<Rightarrow> string list" where
  "split_on p [] = [] # []"
| "split_on p (c # cs) =
     (if p c then [] # split_on p cs
      else (case split_on p cs of
              [] \<Rightarrow> [c] # []
            | x # xs \<Rightarrow> (c # x) # xs))"

fun String_includes :: "string \<Rightarrow> string \<Rightarrow> bool" where
  "String_includes [] n = (n = [])"
| "String_includes (c # cs) n = (take (length n) (c # cs) = n \<or> String_includes cs n)"

text \<open>
  \<open>Number(s)\<close> on the decimal integers: white space (of ASCII) around the text is
  dropped, the empty text is 0, an optional sign may precede the digits. Literals with a
  fraction, an exponent or a radix prefix and \<open>Infinity\<close> are not integers and are
  outside the numbers modelled here; like text that is no numeric literal they are read
  as NaN.
\<close>

definition is_space :: "char \<Rightarrow> bool" where
  "is_space c = (c \<in> {CHR '' '', CHR 0x09, CHR 0x0A, CHR 0x0B, CHR 0x0C, CHR 0x0D})"

definition trim :: "string \<Rightarrow> string" where
  "trim s = rev (dropWhile is_space (rev (dropWhile is_space s)))"

definition is_digit :: "char \<Rightarrow> bool" where
  "is_digit c = (48 \<le> (of_char c :: nat) \<and> (of_char c :: nat) \<le> 57)"

definition digit_value :: "char \<Rightarrow> int" where
  "digit_value c = int (of_char c :: nat) - 48"

definition digits_value :: "string \<Rightarrow> int" where
  "digits_value ds = foldl (\<lambda>n c. 10 * n + digit_value c) 0 ds"

definition Number :: "string \<Rightarrow> number" where
  "Number s =
     (let u = trim s;
          unsigned = (\<lambda>ds. if ds \<noteq> [] \<and> list_all is_digit ds
                           then Some (digits_value ds) else None)
      in case u of
           [] \<Rightarrow> Some 0
         | c # cs \<Rightarrow>
             if c = CHR ''-'' then map_option uminus (unsigned cs)
             else if c = CHR ''+'' then unsigned cs
             else unsigned u)"

subsection \<open>parseDateSafe\<close>

text \<open>
  \<open>now\<close> is the value of \<open>new Date()\<close>. An absent text (\<open>None\<close>) and the empty text are
  the falsy arguments. An array element that is missing is \<open>undefined\<close>, which the
  constructor reads as NaN.
\<close>

definition element :: "number list \<Rightarrow> nat \<Rightarrow> number" where
  "element xs i = (if i < length xs then xs ! i else None)"

definition parseDateSafe :: "Date \<Rightarrow> string option \<Rightarrow> Date" where
  "parseDateSafe now dateStr =
     (case dateStr of
        None \<Rightarrow> now
      | Some str \<Rightarrow>
          if str = [] then now
          else
            let cleanStr = takeWhile (\<lambda>c. c \<noteq> CHR ''T'') str;
                parts = map Number (split_on (\<lambda>c. c = CHR ''-'' \<or> c = CHR ''/'') cleanStr);
                year = element parts 0;
                month = element parts 1;
                day = element parts 2
            in new_Date year (map_option (\<lambda>m. m - 1) month) day)"

subsection \<open>Errors and replies\<close>

text \<open>
  The fixed messages of the source are written in Chinese; each is a constructor here,
  and \<open>Msg\<close> carries a text that comes from outside (the store's \<open>message\<close> field, the
  text of a transport error).
  \<^item> \<open>MsgSetApiUrlInUtils\<close>: set \<open>API_URL\<close> in utils/api.ts first (saveTripToCloud);
  \<^item> \<open>MsgDatesIncomplete\<close>: the dates are incomplete;
  \<^item> \<open>MsgBadReplyFormat\<close>: the server's reply has the wrong format;
  \<^item> \<open>MsgSheetNotFound\<close>: backend error, the spreadsheet was not found;
  \<^item> \<open>MsgConnectionFailed\<close>: connection failed, check \<open>API_URL\<close> and the network;
  \<^item> \<open>MsgSetApiUrl\<close>: set the API URL first (getAllTripsFromCloud);
  \<^item> \<open>MsgCannotReadTrips\<close>: the trip data cannot be read;
  \<^item> \<open>MsgSavedButNotSynced\<close>: the save reported success but the synchronisation failed;
  \<^item> \<open>MsgSaveFailed\<close>: saving failed;
  \<^item> \<open>MsgTripAdded\<close>: the trip has been added;
  \<^item> \<open>MsgSynced\<close>: the latest trips have been synchronised.
\<close>

datatype message =
    Msg string
  | MsgSetApiUrlInUtils
  | MsgDatesIncomplete
  | MsgBadReplyFormat
  | MsgSheetNotFound
  | MsgConnectionFailed
  | MsgSetApiUrl
  | MsgCannotReadTrips
  | MsgSavedButNotSynced
  | MsgSaveFailed
  | MsgTripAdded
  | MsgSynced

datatype js_error = Error message | TypeError message | RangeError message

fun error_name :: "js_error \<Rightarrow> string" where
  "error_name (Error m) = ''Error''"
| "error_name (TypeError m) = ''TypeError''"
| "error_name (RangeError m) = ''RangeError''"

fun error_message :: "js_error \<Rightarrow> message" where
  "error_message (Error m) = m"
| "error_message (TypeError m) = m"
| "error_message (RangeError m) = m"

text \<open>
  \<open>toString_includes e n\<close> is \<open>e.toString().includes(n)\<close> for the two texts that
  \<open>handleApiError\<close> looks for; no fixed message of the source contains either of them.
\<close>

fun toString_includes :: "js_error \<Rightarrow> string \<Rightarrow> bool" where
  "toString_includes e n =
     (case error_message e of
        Msg s \<Rightarrow> String_includes (if s = [] then error_name e else error_name e @ '': '' @ s) n
      | _ \<Rightarrow> False)"

text \<open>
  \<open>mentions_sheet m\<close> is \<open>m.includes(w)\<close> for the words \<open>w\<close> "spreadsheet not found"
  of the message \<open>MsgSheetNotFound\<close>, given here by their UTF-8 bytes.
\<close>

definition sheet_words :: string where
  "sheet_words =
     [CHR 0xE6, CHR 0x89, CHR 0xBE, CHR 0xE4, CHR 0xB8, CHR 0x8D, CHR 0xE5, CHR 0x88, CHR 0xB0,
      CHR 0xE8, CHR 0xA9, CHR 0xA6, CHR 0xE7, CHR 0xAE, CHR 0x97, CHR 0xE8, CHR 0xA1, CHR 0xA8]"

fun mentions_sheet :: "message \<Rightarrow> bool" where
  "mentions_sheet (Msg s) = String_includes s sheet_words"
| "mentions_sheet MsgSheetNotFound = True"
| "mentions_sheet _ = False"

text \<open>
  What a request to the store comes back with: the request or the reading of the body
  fails with an error, the body is not JSON, the body is the JSON \<open>null\<close>, or the body is
  a JSON value with the fields the client reads. A field that is absent is \<open>None\<close>; for
  \<open>trips\<close>, so is a value that is not an array. The entries of \<open>trips\<close> are objects with
  the fields of the wire format, each of them a string or absent.
\<close>

record TripJson =
  json_id :: "string option"
  json_startDate :: "string option"
  json_endDate :: "string option"
  json_lastUpdated :: "string option"

record ReplyJson =
  json_status :: "string option"
  json_message :: "string option"
  json_new_id :: "string option"
  json_trips :: "TripJson list option"

datatype Reply = Rejected js_error | NotJson | JsonNull | Json ReplyJson

definition API_URL :: string where
  "API_URL = ''https://script.google.com/macros/s/AKfycbwRkKn8gI-7v3yNqn5Lb0DQWj0rFYr9hRluw5-fg49E3KncFuXg-dsU10R5ore8QiDSDg/exec''"

text \<open>\<open>handleApiError\<close> always throws; the model returns the error thrown.\<close>

definition handleApiError :: "js_error \<Rightarrow> js_error" where
  "handleApiError error =
     (if toString_includes error ''Cannot read properties of null (reading 'getActiveSheet')''
      then Error MsgSheetNotFound
      else if toString_includes error ''Failed to fetch''
      then Error MsgConnectionFailed
      else error)"

text \<open>
  \<open>saveTripToCloud\<close>: \<open>Inl\<close> is the error the promise rejects with, \<open>Inr\<close> the value it
  resolves to (the reply's \<open>id\<close>, \<open>undefined\<close> when the reply has none). Formatting an
  invalid date for the payload raises a \<open>RangeError\<close> before the request.
\<close>

definition saveTripToCloud :: "DateRange \<Rightarrow> string option \<Rightarrow> Reply \<Rightarrow> js_error + string option" where
  "saveTripToCloud range' ident reply =
     (if API_URL = [] then Inl (Error MsgSetApiUrlInUtils)
      else if DateRange.startDate range' = None \<or> DateRange.endDate range' = None
      then Inl (Error MsgDatesIncomplete)
      else if DateRange.startDate range' = Some Invalid \<or> DateRange.endDate range' = Some Invalid
      then Inl (RangeError (Msg ''Invalid time value''))
      else
        (case (case reply of
                 Rejected e \<Rightarrow> Inl e
               | NotJson \<Rightarrow> Inl (Error MsgBadReplyFormat)
               | JsonNull \<Rightarrow>
                   Inl (TypeError (Msg ''Cannot read properties of null (reading 'status')''))
               | Json data \<Rightarrow>
                   if json_status data = Some ''error''
                   then Inl (Error (Msg (case json_message data of None \<Rightarrow> [] | Some m \<Rightarrow> m)))
                   else Inr (json_new_id data)) of
           Inl error \<Rightarrow> Inl (handleApiError error)
         | Inr ident' \<Rightarrow> Inr ident'))"

definition getAllTripsFromCloud :: "Date \<Rightarrow> Reply \<Rightarrow> js_error + Trip list" where
  "getAllTripsFromCloud now reply =
     (if API_URL = [] then Inl (Error MsgSetApiUrl)
      else
        (case (case reply of
                 Rejected e \<Rightarrow> Inl e
               | NotJson \<Rightarrow> Inl (Error MsgCannotReadTrips)
               | JsonNull \<Rightarrow>
                   Inl (TypeError (Msg ''Cannot read properties of null (reading 'status')''))
               | Json data \<Rightarrow>
                   if json_status data = Some ''error''
                   then Inl (Error (Msg (case json_message data of None \<Rightarrow> [] | Some m \<Rightarrow> m)))
                   else (case json_trips data of
                           None \<Rightarrow> Inr []
                         | Some ts \<Rightarrow>
                             Inr (map (\<lambda>t. \<lparr>id = json_id t,
                                             startDate = parseDateSafe now (json_startDate t),
                                             endDate = parseDateSafe now (json_endDate t),
                                             lastUpdated = json_lastUpdated t\<rparr>) ts))) of
           Inl error \<Rightarrow> Inr []
         | Inr ts \<Rightarrow> Inr ts))"

section \<open>The application (App.tsx)\<close>

text \<open>
  The state of the component. \<open>toasts\<close> lists the notifications shown so far, the latest
  last. An asynchronous handler is one function of the state it starts in, the replies
  it receives and the current time; events that arrive while it waits are not modelled.
\<close>

datatype ToastType = success | error | info

record AppState =
  trips :: "Trip list"
  draftRange :: DateRange
  isEditMode :: bool
  isSaving :: bool
  isLoading :: bool
  lastServerHash :: string
  toasts :: "(message \<times> ToastType) list"

definition showToast :: "message \<Rightarrow> ToastType \<Rightarrow> AppState \<Rightarrow> AppState" where
  "showToast msg type st = st\<lparr>toasts := toasts st @ [(msg, type)]\<rparr>"

text \<open>
  \<open>js_plus a b\<close> is \<open>a + b\<close> for two optional strings: the texts joined, with
  \<open>undefined\<close> for an absent one, and NaN (\<open>None\<close>) when both are absent.
  \<open>JSON_stringify\<close> is \<open>JSON.stringify\<close> of an array of such values, which writes
  \<open>null\<close> for NaN. \<open>currentHash data\<close> is the fingerprint that \<open>fetchTrips\<close> computes
  from the list it fetched.
\<close>

definition hex_digit :: "nat \<Rightarrow> char" where
  "hex_digit n = ''0123456789abcdef'' ! n"

definition QuoteJSONChar :: "char \<Rightarrow> string" where
  "QuoteJSONChar c =
     (if c = CHR 0x08 then [CHR 0x5C, CHR ''b'']
      else if c = CHR 0x09 then [CHR 0x5C, CHR ''t'']
      else if c = CHR 0x0A then [CHR 0x5C, CHR ''n'']
      else if c = CHR 0x0C then [CHR 0x5C, CHR ''f'']
      else if c = CHR 0x0D then [CHR 0x5C, CHR ''r'']
      else if c = CHR 0x22 then [CHR 0x5C, CHR 0x22]
      else if c = CHR 0x5C then [CHR 0x5C, CHR 0x5C]
      else if (of_char c :: nat) < 32
      then [CHR 0x5C, CHR ''u'', CHR ''0'', CHR ''0'',
            hex_digit (of_char c div 16), hex_digit (of_char c mod 16)]
      else [c])"

definition QuoteJSONString :: "string \<Rightarrow> string" where
  "QuoteJSONString s = [CHR 0x22] @ concat (map QuoteJSONChar s) @ [CHR 0x22]"

fun join_commas :: "string list \<Rightarrow> string" where
  "join_commas [] = []"
| "join_commas [x] = x"
| "join_commas (x # y # ys) = x @ '','' @ join_commas (y # ys)"

definition JSON_stringify :: "string option list \<Rightarrow> string" where
  "JSON_stringify xs =
     ''['' @ join_commas (map (\<lambda>x. case x of None \<Rightarrow> ''null''
                                         | Some s \<Rightarrow> QuoteJSONString s) xs) @ '']''"

definition ToString :: "string option \<Rightarrow> string" where
  "ToString x = (case x of None \<Rightarrow> ''undefined'' | Some s \<Rightarrow> s)"

definition js_plus :: "string option \<Rightarrow> string option \<Rightarrow> string option" where
  "js_plus a b = (if a = None \<and> b = None then None else Some (ToString a @ ToString b))"

definition currentHash :: "Trip list \<Rightarrow> string" where
  "currentHash data = JSON_stringify (map (\<lambda>t. js_plus (id t) (lastUpdated t)) data)"

definition fetchTrips :: "bool \<Rightarrow> Date \<Rightarrow> Reply \<Rightarrow> AppState \<Rightarrow> AppState" where
  "fetchTrips silent now reply st =
     (if API_URL = [] then st
      else
        let st1 = (if \<not> silent then st\<lparr>isLoading := True\<rparr> else st);
            st2 =
              (case getAllTripsFromCloud now reply of
                 Inr data \<Rightarrow>
                   if currentHash data \<noteq> lastServerHash st1
                   then (let st' = st1\<lparr>trips := data, lastServerHash := currentHash data\<rparr>
                         in if silent \<and> length data > 0
                            then showToast MsgSynced info st' else st')
                   else st1
               | Inl e \<Rightarrow>
                   if \<not> silent \<and> mentions_sheet (error_message e)
                   then showToast (error_message e) error st1
                   else st1)
        in if \<not> silent then st2\<lparr>isLoading := False\<rparr> else st2)"

text \<open>
  \<open>handleSave\<close>: \<open>saveReply\<close> answers the save request and \<open>listReply\<close> the fetch of the
  full list that follows it. \<open>caught e\<close> is the \<open>catch\<close> block.
\<close>

definition handleSave :: "Date \<Rightarrow> Reply \<Rightarrow> Reply \<Rightarrow> AppState \<Rightarrow> AppState" where
  "handleSave now saveReply listReply st =
     (if DateRange.startDate (draftRange st) = None \<or> DateRange.endDate (draftRange st) = None
      then st
      else
        let st1 = st\<lparr>isSaving := True\<rparr>;
            caught = (\<lambda>e. showToast (if error_message e = Msg [] then MsgSaveFailed
                                       else error_message e) error st1);
            st2 =
              (case saveTripToCloud (draftRange st) None saveReply of
                 Inl e \<Rightarrow> caught e
               | Inr newId \<Rightarrow>
                   (case getAllTripsFromCloud now listReply of
                      Inl e \<Rightarrow> caught e
                    | Inr latestTrips \<Rightarrow>
                        (let isSaved = list_ex (\<lambda>t. id t = newId) latestTrips
                         in if \<not> isSaved then caught (Error MsgSavedButNotSynced)
                            else (showToast MsgTripAdded success (st1\<lparr>trips := latestTrips\<rparr>))
                                   \<lparr>draftRange := \<lparr>DateRange.startDate = None, endDate = None\<rparr>,
                                    isEditMode := False\<rparr>)))
        in st2\<lparr>isSaving := False\<rparr>)"

definition handleResetDraft :: "AppState \<Rightarrow> AppState" where
  "handleResetDraft st = st\<lparr>draftRange := \<lparr>DateRange.startDate = None, endDate = None\<rparr>\<rparr>"

text \<open>
  The application's initial state, the button that starts a new trip, and a click on a
  day of the calendar, which the application renders read-only outside edit mode and
  whose \<open>onDraftChange\<close> is the setter of the draft.
\<close>

definition initialState :: AppState where
  "initialState =
     \<lparr>trips = [], draftRange = \<lparr>DateRange.startDate = None, endDate = None\<rparr>,
      isEditMode = False, isSaving = False, isLoading = False, lastServerHash = [],
      toasts = []\<rparr>"

definition startNewTrip :: "AppState \<Rightarrow> AppState" where
  "startNewTrip st =
     st\<lparr>isEditMode := True, draftRange := \<lparr>DateRange.startDate = None, endDate = None\<rparr>\<rparr>"

definition publishDraft :: "DateRange option \<Rightarrow> AppState \<Rightarrow> AppState" where
  "publishDraft change st = (case change of None \<Rightarrow> st | Some r \<Rightarrow> st\<lparr>draftRange := r\<rparr>)"

section \<open>Calendar dates, the draft invariant and the reachable states\<close>

text \<open>
  \<open>dateOfDay n\<close> is the \<open>Date\<close> of a calendar date: local midnight of day \<open>n\<close>, counted
  from 1 January 1970. The days of the grid, and so the dates a click passes on, are of
  this form.
\<close>

definition dateOfDay :: "int \<Rightarrow> Date" where
  "dateOfDay n = Time (n * msPerDay)"


text \<open>
  The invariant of the draft: its dates are valid, an end date comes with a start date,
  and the start is not after the end.
\<close>

fun range_ok :: "Date option \<Rightarrow> Date option \<Rightarrow> bool" where
  "range_ok None None = True"
| "range_ok (Some (Time s)) None = True"
| "range_ok (Some (Time s)) (Some (Time e)) = (s \<le> e)"
| "range_ok _ _ = False"

definition draft_invariant :: "DateRange \<Rightarrow> bool" where
  "draft_invariant r = range_ok (DateRange.startDate r) (DateRange.endDate r)"

text \<open>
  The states the application reaches. Every handler of the application that changes the
  state modelled here is one of these steps: a click on a day of the calendar, the reset
  button, the button for a new trip, leaving edit mode, a save, a fetch, and a
  notification (the toasts of \<open>handleDayClick\<close>, \<open>handleDelete\<close> and
  \<open>handleUpdateHolidays\<close>).
\<close>

inductive reachable :: "AppState \<Rightarrow> bool" where
  initial: "reachable initialState"
| click:
    "reachable st \<Longrightarrow>
     reachable (publishDraft
       (snd (handleDateClick (trips st) (\<not> isEditMode st) (draftRange st) (Time t))) st)"
| reset: "reachable st \<Longrightarrow> reachable (handleResetDraft st)"
| new_trip: "reachable st \<Longrightarrow> reachable (startNewTrip st)"
| cancel: "reachable st \<Longrightarrow> reachable (st\<lparr>isEditMode := False\<rparr>)"
| save: "reachable st \<Longrightarrow> reachable (handleSave now saveReply listReply st)"
| fetch: "reachable st \<Longrightarrow> reachable (fetchTrips silent now reply st)"
| notify: "reachable st \<Longrightarrow> reachable (showToast msg type st)"

section \<open>Facts about days and years\<close>

lemma Day_of_days [simp]: "Day (n * msPerDay) = n"
  by (simp add: Day_def msPerDay_def)

lemma msPerDay_pos [simp]: "0 < msPerDay" "msPerDay \<noteq> 0"
  by (simp_all add: msPerDay_def)

lemma div_succ_int:
  fixes a k :: int
  assumes "0 < k"
  shows "(a + 1) div k = (if (a + 1) mod k = 0 then a div k + 1 else a div k)"
proof -
  define q where "q = a div k"
  define r where "r = a mod k"
  have a: "a = k * q + r" and r: "0 \<le> r" "r < k"
    using assms by (simp_all add: q_def r_def)
  show ?thesis
  proof (cases "r + 1 = k")
    case True
    then have "a + 1 = k * (q + 1)" using a by (simp add: algebra_simps)
    then show ?thesis using assms by (simp add: q_def)
  next
    case False
    then have lt: "r + 1 < k" using r by simp
    have e: "a + 1 = k * q + (r + 1)" using a by simp
    have d: "(a + 1) div k = q"
      unfolding e using lt r assms by simp
    have m: "(a + 1) mod k = r + 1"
      unfolding e using lt r assms by simp
    show ?thesis using d m r by (simp add: q_def)
  qed
qed

lemma leap_mod4: "(y - 1968) mod 4 = 0 \<longleftrightarrow> y mod 4 = (0::int)"
proof -
  have "(4::int) dvd 1968" by simp
  then show ?thesis unfolding mod_eq_0_iff_dvd by (rule dvd_diff_left_iff)
qed

lemma leap_mod100: "(y - 1900) mod 100 = 0 \<longleftrightarrow> y mod 100 = (0::int)"
proof -
  have "(100::int) dvd 1900" by simp
  then show ?thesis unfolding mod_eq_0_iff_dvd by (rule dvd_diff_left_iff)
qed

lemma leap_mod400: "(y - 1600) mod 400 = 0 \<longleftrightarrow> y mod 400 = (0::int)"
proof -
  have "(400::int) dvd 1600" by simp
  then show ?thesis unfolding mod_eq_0_iff_dvd by (rule dvd_diff_left_iff)
qed

lemma mod100_mod4: "y mod 100 = 0 \<Longrightarrow> y mod 4 = (0::int)"
proof -
  assume "y mod 100 = 0"
  then have "100 dvd y" by (simp add: mod_eq_0_iff_dvd)
  moreover have "(4::int) dvd 100" by simp
  ultimately have "4 dvd y" by (rule dvd_trans[rotated])
  then show ?thesis by (simp add: mod_eq_0_iff_dvd)
qed

lemma mod400_mod100: "y mod 400 = 0 \<Longrightarrow> y mod 100 = (0::int)"
proof -
  assume "y mod 400 = 0"
  then have "400 dvd y" by (simp add: mod_eq_0_iff_dvd)
  moreover have "(100::int) dvd 400" by simp
  ultimately have "100 dvd y" by (rule dvd_trans[rotated])
  then show ?thesis by (simp add: mod_eq_0_iff_dvd)
qed

text \<open>A year is as long as \<open>DaysInYear\<close> says.\<close>

lemma DayFromYear_Suc: "DayFromYear (y + 1) = DayFromYear y + DaysInYear y"
proof -
  have a: "(y + 1 - 1969) div 4 = (y - 1969) div 4 + (if y mod 4 = 0 then 1 else 0)"
    using div_succ_int[of 4 "y - 1969"] leap_mod4[of y] by (simp add: algebra_simps)
  have b: "(y + 1 - 1901) div 100 = (y - 1901) div 100 + (if y mod 100 = 0 then 1 else 0)"
    using div_succ_int[of 100 "y - 1901"] leap_mod100[of y] by (simp add: algebra_simps)
  have c: "(y + 1 - 1601) div 400 = (y - 1601) div 400 + (if y mod 400 = 0 then 1 else 0)"
    using div_succ_int[of 400 "y - 1601"] leap_mod400[of y] by (simp add: algebra_simps)
  show ?thesis
    unfolding DayFromYear_def DaysInYear_def a b c
    using mod100_mod4[of y] mod400_mod100[of y] by auto
qed

lemma DaysInYear_bounds: "365 \<le> DaysInYear y" "DaysInYear y \<le> 366"
  by (simp_all add: DaysInYear_def)

text \<open>The first day of a year lies within two days of 365.2425 days per year.\<close>

lemma DayFromYear_approx:
  "400 * DayFromYear y \<le> 146097 * (y - 1970) + 600"
  "146097 * (y - 1970) - 600 \<le> 400 * DayFromYear y"
proof -
  define a where "a = (y - 1969) div 4"
  define ra where "ra = (y - 1969) mod 4"
  define b where "b = (y - 1901) div 100"
  define rb where "rb = (y - 1901) mod 100"
  define c where "c = (y - 1601) div 400"
  define rc where "rc = (y - 1601) mod 400"
  have A: "y - 1969 = 4 * a + ra" and ra: "0 \<le> ra" "ra < 4"
    by (simp_all add: a_def ra_def)
  have B: "y - 1901 = 100 * b + rb" and rb: "0 \<le> rb" "rb < 100"
    by (simp_all add: b_def rb_def)
  have C: "y - 1601 = 400 * c + rc" and rc: "0 \<le> rc" "rc < 400"
    by (simp_all add: c_def rc_def)
  have A': "400 * a = 100 * (y - 1969) - 100 * ra" using A by simp
  have B': "400 * b = 4 * (y - 1901) - 4 * rb" using B by simp
  have C': "400 * c = (y - 1601) - rc" using C by simp
  have D: "400 * DayFromYear y = 146000 * (y - 1970) + 400 * a - 400 * b + 400 * c"
    by (simp add: DayFromYear_def a_def b_def c_def)
  have E: "400 * DayFromYear y = 146097 * (y - 1970) + 193 - 100 * ra + 4 * rb - rc"
    unfolding D A' B' C' by simp
  show "400 * DayFromYear y \<le> 146097 * (y - 1970) + 600"
    unfolding E using ra rb rc by simp
  show "146097 * (y - 1970) - 600 \<le> 400 * DayFromYear y"
    unfolding E using ra rb rc by simp
qed

lemma DayFromYear_mono: "y \<le> y' \<Longrightarrow> DayFromYear y \<le> DayFromYear y'"
proof (induction y' rule: int_ge_induct)
  case base
  show ?case by simp
next
  case (step i)
  have "DayFromYear i \<le> DayFromYear (i + 1)"
    using DaysInYear_bounds(1)[of i] by (simp add: DayFromYear_Suc)
  with step.IH show ?case by linarith
qed

text \<open>\<open>YearFromDay d\<close> is the year whose days contain \<open>d\<close>, and the only one.\<close>

lemma YearFromDay_bounds:
  "DayFromYear (YearFromDay d) \<le> d" "d < DayFromYear (YearFromDay d + 1)"
proof -
  define y where "y = 1970 + (400 * d) div 146097"
  define q where "q = (400 * d) div 146097"
  define r where "r = (400 * d) mod 146097"
  have Q: "400 * d = 146097 * q + r" "0 \<le> r" "r < 146097"
    by (simp_all add: q_def r_def)
  have y: "y - 1970 = q" by (simp add: y_def q_def)
  have lo: "DayFromYear (y - 1) \<le> d"
  proof -
    have "400 * DayFromYear (y - 1) \<le> 146097 * q - 146097 + 600"
      using DayFromYear_approx(1)[of "y - 1"] y by simp
    also have "\<dots> \<le> 400 * d" using Q by simp
    finally show ?thesis by simp
  qed
  have hi: "d < DayFromYear (y + 2)"
  proof -
    have "400 * d < 146097 * q + 2 * 146097 - 600" using Q by simp
    also have "\<dots> \<le> 400 * DayFromYear (y + 2)"
      using DayFromYear_approx(2)[of "y + 2"] y by simp
    finally show ?thesis by simp
  qed
  have Y: "YearFromDay d =
      (if d < DayFromYear y then y - 1
       else if DayFromYear (y + 1) \<le> d then y + 1 else y)"
    by (simp add: YearFromDay_def y_def Let_def)
  have two: "y + 1 + 1 = y + 2" by simp
  show "DayFromYear (YearFromDay d) \<le> d"
    unfolding Y using lo by auto
  show "d < DayFromYear (YearFromDay d + 1)"
    unfolding Y using hi by (auto simp: two)
qed

lemma YearFromDay_unique:
  assumes "DayFromYear y \<le> d" and "d < DayFromYear (y + 1)"
  shows "YearFromDay d = y"
proof (rule ccontr)
  assume neq: "YearFromDay d \<noteq> y"
  let ?z = "YearFromDay d"
  show False
  proof (cases "?z < y")
    case True
    then have "DayFromYear (?z + 1) \<le> DayFromYear y"
      by (intro DayFromYear_mono) simp
    with assms(1) YearFromDay_bounds(2)[of d] show False by linarith
  next
    case False
    with neq have "y + 1 \<le> ?z" by simp
    then have "DayFromYear (y + 1) \<le> DayFromYear ?z"
      by (rule DayFromYear_mono)
    with assms(2) YearFromDay_bounds(1)[of d] show False by linarith
  qed
qed

lemma month_cases:
  fixes m :: int
  assumes "0 \<le> m" "m \<le> 11"
  obtains "m = 0" | "m = 1" | "m = 2" | "m = 3" | "m = 4" | "m = 5"
    | "m = 6" | "m = 7" | "m = 8" | "m = 9" | "m = 10" | "m = 11"
proof -
  have "m = 0 \<or> m = 1 \<or> m = 2 \<or> m = 3 \<or> m = 4 \<or> m = 5
      \<or> m = 6 \<or> m = 7 \<or> m = 8 \<or> m = 9 \<or> m = 10 \<or> m = 11"
    using assms by presburger
  then show thesis using that by blast
qed

lemma DaysBeforeMonth_range:
  assumes "0 \<le> m" "m \<le> 11" "1 \<le> d" "d \<le> DaysInMonth y m"
  shows "0 \<le> DaysBeforeMonth y m + d - 1"
    and "DaysBeforeMonth y m + d - 1 < DaysInYear y"
  using assms DaysInYear_bounds[of y]
  by (cases m rule: month_cases; simp add: DaysBeforeMonth_def DaysInMonth_def split: if_splits)+

lemma YearFromDay_MakeDay:
  assumes "0 \<le> m" "m \<le> 11" "1 \<le> d" "d \<le> DaysInMonth y m"
  shows "YearFromDay (MakeDay y m d) = y"
proof -
  have mn: "m div 12 = 0" "m mod 12 = m" using assms(1,2) by simp_all
  have M: "MakeDay y m d = DayFromYear y + (DaysBeforeMonth y m + d - 1)"
    by (simp add: MakeDay_def mn)
  show ?thesis
    unfolding M
    using DaysBeforeMonth_range[OF assms]
    by (intro YearFromDay_unique) (simp_all add: DayFromYear_Suc)
qed

text \<open>
  The date that \<open>MakeDay\<close> builds from a year, a month from 0 to 11 and a day of that
  month has that year, that month and that day.
\<close>

lemma civil_MakeDay:
  assumes "0 \<le> m" "m \<le> 11" "1 \<le> d" "d \<le> DaysInMonth y m"
  shows "YearFromTime (MakeDay y m d * msPerDay) = y"
    and "MonthFromTime (MakeDay y m d * msPerDay) = m"
    and "DateFromTime (MakeDay y m d * msPerDay) = d"
proof -
  let ?t = "MakeDay y m d * msPerDay"
  have mn: "m div 12 = 0" "m mod 12 = m" using assms(1,2) by simp_all
  show Y: "YearFromTime ?t = y"
    by (simp add: YearFromTime_def YearFromDay_MakeDay[OF assms])
  have W: "DayWithinYear ?t = DaysBeforeMonth y m + d - 1"
    by (simp add: DayWithinYear_def Y) (simp add: MakeDay_def mn)
  have L: "InLeapYear ?t = (if DaysInYear y = 366 then 1 else 0)"
    by (simp add: InLeapYear_def Y)
  show Mo: "MonthFromTime ?t = m"
    unfolding MonthFromTime_def W L
    using assms
    by (cases m rule: month_cases; simp add: DaysBeforeMonth_def DaysInMonth_def split: if_splits)
  show "DateFromTime ?t = d"
    unfolding DateFromTime_def W L Mo
    using assms
    by (cases m rule: month_cases; simp add: DaysBeforeMonth_def DaysInMonth_def split: if_splits)
qed

subsection \<open>The days of a month and of a week\<close>

lemma Day_end_of_day [simp]: "Day (n * msPerDay + (msPerDay - 1)) = n"
  by (simp add: Day_def msPerDay_def)

lemma maxTime_days: "maxTime = 100000000 * msPerDay"
  by (simp add: maxTime_def msPerDay_def)

lemma TimeClip_in_range: "- maxTime \<le> t \<Longrightarrow> t \<le> maxTime \<Longrightarrow> TimeClip t = Time t"
  by (simp add: TimeClip_def)

lemma day_in_range:
  assumes "- 100000000 \<le> n" "n \<le> 100000000"
  shows "- maxTime \<le> n * msPerDay" "n * msPerDay \<le> maxTime"
  using assms by (simp_all add: maxTime_def msPerDay_def)






lemma MakeDay_in_month:
  assumes "0 \<le> m" "m \<le> 11"
  shows "MakeDay y m d = DayFromYear y + DaysBeforeMonth y m + d - 1"
proof -
  have "m div 12 = 0" "m mod 12 = m" using assms by simp_all
  then show ?thesis by (simp add: MakeDay_def)
qed








lemma week_mod: "(7 * q - 4 + 4) mod 7 = (0::int)" "(7 * q + 2 + 4) mod 7 = (6::int)"
  by simp_all


section \<open>The date-range selector\<close>

text \<open>
  A read-only calendar publishes no draft. An editable one, on a draft with only a start,
  compares the instants first and the days second: a click earlier on the start's own
  day restarts the draft, a click later on that day clears it.
\<close>

lemma handleDateClick_readOnly: "snd (handleDateClick ts True r D) = None"
  by (simp add: handleDateClick_def)

lemma handleDateClick_times:
  "snd (handleDateClick ts False \<lparr>DateRange.startDate = Some (Time s), endDate = None\<rparr>
          (Time d)) =
     Some (if d < s then \<lparr>DateRange.startDate = Some (Time d), endDate = None\<rparr>
           else if Day d = Day s then \<lparr>DateRange.startDate = None, endDate = None\<rparr>
           else \<lparr>DateRange.startDate = Some (Time s), endDate = Some (Time d)\<rparr>)"
  by (simp add: handleDateClick_def)

text \<open>
  C1. With the calendar editable (\<open>readOnly\<close> false; a read-only calendar publishes no
  draft), a click on a date \<open>D\<close> publishes the draft of the transition table. From the
  empty draft: start \<open>D\<close>, no end. From a draft with only a start \<open>S\<close>, for calendar dates
  (day \<open>n\<close> clicked, day \<open>k\<close> the start): start \<open>D\<close> and no end when \<open>D\<close> is strictly before
  \<open>S\<close>, the empty draft when \<open>D\<close> is \<open>S\<close>, start \<open>S\<close> and end \<open>D\<close> otherwise. From a
  draft with both dates: start \<open>D\<close>, no end.
\<close>

theorem handleDateClick_transition_table:
  "snd (handleDateClick ts False \<lparr>DateRange.startDate = None, endDate = None\<rparr> D) =
     Some \<lparr>DateRange.startDate = Some D, endDate = None\<rparr>
   \<and> snd (handleDateClick ts False
            \<lparr>DateRange.startDate = Some (dateOfDay k), endDate = None\<rparr> (dateOfDay n)) =
     Some (if n < k then \<lparr>DateRange.startDate = Some (dateOfDay n), endDate = None\<rparr>
           else if n = k then \<lparr>DateRange.startDate = None, endDate = None\<rparr>
           else \<lparr>DateRange.startDate = Some (dateOfDay k), endDate = Some (dateOfDay n)\<rparr>)
   \<and> snd (handleDateClick ts False \<lparr>DateRange.startDate = Some S, endDate = Some E\<rparr> D) =
     Some \<lparr>DateRange.startDate = Some D, endDate = None\<rparr>"
  by (simp add: handleDateClick_def dateOfDay_def)

subsection \<open>The invariant of the draft\<close>

lemma draft_invariant_click:
  assumes "draft_invariant r" and "snd (handleDateClick ts ro r (Time t)) = Some r'"
  shows "draft_invariant r'"
  using assms
  by (cases "(DateRange.startDate r, DateRange.endDate r)" rule: range_ok.cases)
     (auto simp: handleDateClick_def draft_invariant_def split: if_splits)

lemma draft_invariant_empty [simp]:
  "draft_invariant \<lparr>DateRange.startDate = None, endDate = None\<rparr>"
  by (simp add: draft_invariant_def)

lemma draftRange_fetchTrips [simp]:
  "draftRange (fetchTrips silent now reply st) = draftRange st"
  by (simp add: fetchTrips_def showToast_def Let_def split: sum.splits)

lemma draftRange_handleSave:
  "draftRange (handleSave now r1 r2 st) = draftRange st
   \<or> draftRange (handleSave now r1 r2 st) = \<lparr>DateRange.startDate = None, endDate = None\<rparr>"
  by (simp add: handleSave_def showToast_def Let_def split: sum.splits)

lemma reachable_invariant:
  "reachable st \<Longrightarrow> draft_invariant (draftRange st)"
proof (induction rule: reachable.induct)
  case initial
  show ?case by (simp add: initialState_def)
next
  case (click st t)
  show ?case
  proof (cases "snd (handleDateClick (trips st) (\<not> isEditMode st) (draftRange st) (Time t))")
    case None
    then show ?thesis using click.IH by (simp add: publishDraft_def)
  next
    case (Some r')
    then show ?thesis
      using draft_invariant_click[OF click.IH Some] by (simp add: publishDraft_def)
  qed
next
  case (reset st)
  show ?case by (simp add: handleResetDraft_def)
next
  case (new_trip st)
  show ?case by (simp add: startNewTrip_def)
next
  case (cancel st)
  then show ?case by simp
next
  case (save st now saveReply listReply)
  then show ?case
    using draftRange_handleSave[of now saveReply listReply st] by auto
next
  case (fetch st silent now reply)
  then show ?case by simp
next
  case (notify st msg type)
  then show ?case by (simp add: showToast_def)
qed

text \<open>
  C7. The invariant of the draft (valid dates, no end without a start, and the start not
  after the end when both are present) holds in the initial state, is kept by every
  click on a date and by the reset, and holds in every state the application reaches;
  in particular no reachable draft has an end date and no start date.
\<close>

theorem draft_invariant_holds:
  "draft_invariant (draftRange initialState)
   \<and> (\<forall>ts ro r t r'. draft_invariant r \<and> snd (handleDateClick ts ro r (Time t)) = Some r'
         \<longrightarrow> draft_invariant r')
   \<and> (\<forall>st. draft_invariant (draftRange (handleResetDraft st)))
   \<and> (\<forall>st. reachable st \<longrightarrow> draft_invariant (draftRange st))
   \<and> (\<forall>st. reachable st \<and> DateRange.endDate (draftRange st) \<noteq> None
         \<longrightarrow> DateRange.startDate (draftRange st) \<noteq> None)"
proof (intro conjI allI impI)
  show "draft_invariant (draftRange initialState)" by (simp add: initialState_def)
next
  fix ts ro r t r'
  assume "draft_invariant r \<and> snd (handleDateClick ts ro r (Time t)) = Some r'"
  then show "draft_invariant r'" using draft_invariant_click by blast
next
  fix st show "draft_invariant (draftRange (handleResetDraft st))"
    by (simp add: handleResetDraft_def)
next
  fix st assume "reachable st"
  then show "draft_invariant (draftRange st)" by (rule reachable_invariant)
next
  fix st assume a: "reachable st \<and> DateRange.endDate (draftRange st) \<noteq> None"
  then have "range_ok (DateRange.startDate (draftRange st)) (DateRange.endDate (draftRange st))"
    using reachable_invariant by (simp add: draft_invariant_def)
  with a show "DateRange.startDate (draftRange st) \<noteq> None"
    by (cases "DateRange.startDate (draftRange st)") auto
qed

theorem draft_invariant_holds_witness:
  "reachable (publishDraft
      (snd (handleDateClick [] False \<lparr>DateRange.startDate = None, endDate = None\<rparr>
             (Time (20244 * msPerDay))))
      (startNewTrip initialState))
   \<and> draft_invariant \<lparr>DateRange.startDate = Some (Time (20244 * msPerDay)), endDate = None\<rparr>
   \<and> snd (handleDateClick [] False
            \<lparr>DateRange.startDate = Some (Time (20244 * msPerDay)), endDate = None\<rparr>
            (Time (20259 * msPerDay)))
       = Some \<lparr>DateRange.startDate = Some (Time (20244 * msPerDay)),
               endDate = Some (Time (20259 * msPerDay))\<rparr>
   \<and> draft_invariant \<lparr>DateRange.startDate = Some (Time (20244 * msPerDay)),
                       endDate = Some (Time (20259 * msPerDay))\<rparr>"
proof -
  have r: "reachable (publishDraft
      (snd (handleDateClick (trips (startNewTrip initialState))
             (\<not> isEditMode (startNewTrip initialState))
             (draftRange (startNewTrip initialState)) (Time (20244 * msPerDay))))
      (startNewTrip initialState))"
    by (intro reachable.click reachable.new_trip reachable.initial)
  have r': "reachable (publishDraft
      (snd (handleDateClick [] False \<lparr>DateRange.startDate = None, endDate = None\<rparr>
             (Time (20244 * msPerDay))))
      (startNewTrip initialState))"
    using r by (simp add: startNewTrip_def initialState_def)
  have i: "draft_invariant
      \<lparr>DateRange.startDate = Some (Time (20244 * msPerDay)), endDate = None\<rparr>"
    by (simp add: draft_invariant_def)
  have c: "snd (handleDateClick [] False
            \<lparr>DateRange.startDate = Some (Time (20244 * msPerDay)), endDate = None\<rparr>
            (Time (20259 * msPerDay)))
       = Some \<lparr>DateRange.startDate = Some (Time (20244 * msPerDay)),
               endDate = Some (Time (20259 * msPerDay))\<rparr>"
    by (simp add: handleDateClick_def)
  from draft_invariant_holds i c r' show ?thesis by blast
qed

section \<open>The trip reconciler\<close>

text \<open>
  C3. For every date \<open>D\<close> on the same day as the draft's start or end date,
  the flags of the day cell report the draft's boundary (\<open>isStart\<close> or \<open>isEnd\<close> is true)
  and \<open>isSavedTrip\<close> is false. The trip's interior flag is not suppressed: when the first
  persisted trip whose days contain \<open>D\<close> has \<open>D\<close> on neither its first nor its last day,
  \<open>isRange\<close> is true.
\<close>

theorem dayCell_draft_boundary:
  assumes "DateRange.startDate r = Some b \<or> DateRange.endDate r = Some b"
    and "isSameDay D b"
  shows "(isStart (dayCell ts r D) \<or> isEnd (dayCell ts r D))
       \<and> \<not> isSavedTrip (dayCell ts r D)
       \<and> (\<forall>t. getTripForDate ts D = Some t
               \<and> \<not> isSameDay D (Trip.startDate t) \<and> \<not> isSameDay D (Trip.endDate t)
             \<longrightarrow> isRange (dayCell ts r D))"
  using assms by (auto simp: dayCell_def Let_def)

theorem dayCell_draft_boundary_witness:
  "isSameDay (dateOfDay 20249) (dateOfDay 20249)
   \<and> getTripForDate
        [\<lparr>id = Some ''T1'', startDate = dateOfDay 20244, endDate = dateOfDay 20259,
          lastUpdated = None\<rparr>] (dateOfDay 20249)
       = Some \<lparr>id = Some ''T1'', startDate = dateOfDay 20244, endDate = dateOfDay 20259,
               lastUpdated = None\<rparr>
   \<and> \<not> isSameDay (dateOfDay 20249) (dateOfDay 20244)
   \<and> \<not> isSameDay (dateOfDay 20249) (dateOfDay 20259)
   \<and> isStart (dayCell
        [\<lparr>id = Some ''T1'', startDate = dateOfDay 20244, endDate = dateOfDay 20259,
          lastUpdated = None\<rparr>]
        \<lparr>DateRange.startDate = Some (dateOfDay 20249), endDate = None\<rparr>
        (dateOfDay 20249))
   \<and> \<not> isSavedTrip (dayCell
        [\<lparr>id = Some ''T1'', startDate = dateOfDay 20244, endDate = dateOfDay 20259,
          lastUpdated = None\<rparr>]
        \<lparr>DateRange.startDate = Some (dateOfDay 20249), endDate = None\<rparr>
        (dateOfDay 20249))
   \<and> isRange (dayCell
        [\<lparr>id = Some ''T1'', startDate = dateOfDay 20244, endDate = dateOfDay 20259,
          lastUpdated = None\<rparr>]
        \<lparr>DateRange.startDate = Some (dateOfDay 20249), endDate = None\<rparr>
        (dateOfDay 20249))"
proof -
  let ?T = "\<lparr>id = Some ''T1'', startDate = dateOfDay 20244, endDate = dateOfDay 20259,
          lastUpdated = None\<rparr>"
  let ?r = "\<lparr>DateRange.startDate = Some (dateOfDay 20249), endDate = None\<rparr>"
  have b: "DateRange.startDate ?r = Some (dateOfDay 20249)
           \<or> DateRange.endDate ?r = Some (dateOfDay 20249)" by simp
  have s: "isSameDay (dateOfDay 20249) (dateOfDay 20249)" by (simp add: dateOfDay_def)
  have g: "getTripForDate [?T] (dateOfDay 20249) = Some ?T" by code_simp
  have n1: "\<not> isSameDay (dateOfDay 20249) (Trip.startDate ?T)" by code_simp
  have n2: "\<not> isSameDay (dateOfDay 20249) (Trip.endDate ?T)" by code_simp
  have e: "\<not> isEnd (dayCell [?T] ?r (dateOfDay 20249))" by code_simp
  from dayCell_draft_boundary[OF b s, of "[?T]"] g n1 n2 e s show ?thesis
    by simp
qed

text \<open>
  So \<open>isRange\<close> is not false on every draft boundary inside a trip: with 10 June 2025 as
  the draft's start, strictly inside a trip from 5 to 20 June 2025, the cell of that day
  has both \<open>isStart\<close> and \<open>isRange\<close>.
\<close>

theorem dayCell_trip_interior_counterexample:
  "DateRange.startDate \<lparr>DateRange.startDate = Some (dateOfDay 20249), endDate = None\<rparr>
     = Some (dateOfDay 20249)
   \<and> isAfter (dateOfDay 20249) (endOfDay (dateOfDay 20244))
   \<and> isBefore (dateOfDay 20249) (startOfDay (dateOfDay 20259))
   \<and> isStart (dayCell
        [\<lparr>id = Some ''T1'', startDate = dateOfDay 20244, endDate = dateOfDay 20259,
          lastUpdated = None\<rparr>]
        \<lparr>DateRange.startDate = Some (dateOfDay 20249), endDate = None\<rparr>
        (dateOfDay 20249))
   \<and> isRange (dayCell
        [\<lparr>id = Some ''T1'', startDate = dateOfDay 20244, endDate = dateOfDay 20259,
          lastUpdated = None\<rparr>]
        \<lparr>DateRange.startDate = Some (dateOfDay 20249), endDate = None\<rparr>
        (dateOfDay 20249))"
  by code_simp

section \<open>The calendar grid\<close>













subsection \<open>Auto-navigation\<close>

text \<open>
  With a draft start, the effect shows that date. Without one and with trips, it shows
  the start of the first trip in list order that starts after the current time, or of
  the last trip of the list when there is none. In a list sorted by start date the first
  such trip is the nearest.
\<close>

lemma autoNavigate_draft:
  "DateRange.startDate r = Some s \<Longrightarrow> autoNavigate now r ts cm = s"
  by (simp add: autoNavigate_def)

lemma autoNavigate_first_upcoming:
  assumes "DateRange.startDate r = None"
    and "find (\<lambda>t. isAfter (Trip.startDate t) now) ts = Some t"
  shows "autoNavigate now r ts cm = Trip.startDate t"
  using assms by (cases ts) (simp_all add: autoNavigate_def)

lemma autoNavigate_last:
  assumes "DateRange.startDate r = None" and "ts \<noteq> []"
    and "find (\<lambda>t. isAfter (Trip.startDate t) now) ts = None"
  shows "autoNavigate now r ts cm = Trip.startDate (last ts)"
  using assms by (simp add: autoNavigate_def last_conv_nth)

lemma first_upcoming_nearest_if_sorted:
  assumes "sorted_wrt (\<lambda>a b. \<not> isAfter (Trip.startDate a) (Trip.startDate b)) ts"
    and "find (\<lambda>t. isAfter (Trip.startDate t) now) ts = Some t"
    and "u \<in> set ts" and "isAfter (Trip.startDate u) now"
  shows "\<not> isBefore (Trip.startDate u) (Trip.startDate t)"
proof -
  obtain i where i: "i < length ts" "ts ! i = t"
    and before: "\<forall>j<i. \<not> isAfter (Trip.startDate (ts ! j)) now"
    using assms(2) by (auto simp: find_Some_iff)
  obtain k where k: "k < length ts" "ts ! k = u"
    using assms(3) by (auto simp: in_set_conv_nth)
  have "\<not> k < i" using before k(2) assms(4) by auto
  then have "i = k \<or> i < k" by auto
  then show ?thesis
  proof
    assume "i = k"
    then have "u = t" using i k by simp
    then show ?thesis by (cases "Trip.startDate t") simp_all
  next
    assume "i < k"
    then have "\<not> isAfter (Trip.startDate t) (Trip.startDate u)"
      using assms(1) i k by (auto simp: sorted_wrt_iff_nth_less)
    then show ?thesis
      by (cases "Trip.startDate t"; cases "Trip.startDate u") simp_all
  qed
qed

text \<open>
  C8. When the draft's start is set the month shown becomes that date's month; with no
  draft start and trips, it becomes the start month of the nearest upcoming trip, or of
  the last trip of the list when none is upcoming. On a list that is not sorted the
  effect does not show the nearest upcoming trip: on 2 November 2026, with a trip
  starting on 1 May 2030 listed before one starting on 1 March 2027, it shows May 2030.
\<close>


theorem autoNavigate_first_in_list:
  "autoNavigate (Time (20759 * msPerDay + 36000000))
      \<lparr>DateRange.startDate = None, endDate = None\<rparr>
      [\<lparr>id = Some ''A'', startDate = new_Date (Some 2030) (Some 4) (Some 1),
        endDate = new_Date (Some 2030) (Some 4) (Some 10), lastUpdated = None\<rparr>,
       \<lparr>id = Some ''B'', startDate = new_Date (Some 2027) (Some 2) (Some 1),
        endDate = new_Date (Some 2027) (Some 2) (Some 5), lastUpdated = None\<rparr>]
      (Time (20759 * msPerDay + 36000000))
     = new_Date (Some 2030) (Some 4) (Some 1)
   \<and> getFullYear (new_Date (Some 2030) (Some 4) (Some 1)) = Some 2030
   \<and> getMonth (new_Date (Some 2030) (Some 4) (Some 1)) = Some 4
   \<and> getFullYear (Time (20759 * msPerDay + 36000000)) = Some 2026
   \<and> getMonth (Time (20759 * msPerDay + 36000000)) = Some 10
   \<and> getDate (Time (20759 * msPerDay + 36000000)) = Some 2
   \<and> isAfter (new_Date (Some 2027) (Some 2) (Some 1)) (Time (20759 * msPerDay + 36000000))
   \<and> isBefore (new_Date (Some 2027) (Some 2) (Some 1)) (new_Date (Some 2030) (Some 4) (Some 1))"
  by code_simp

section \<open>The remote store client\<close>

lemma is_digit_chars:
  assumes "is_digit c"
  shows "c \<noteq> CHR ''-''" "c \<noteq> CHR ''/''" "c \<noteq> CHR ''T''" "c \<noteq> CHR ''+''" "\<not> is_space c"
  using assms by (auto simp: is_digit_def is_space_def)

lemma trim_digits2 [simp]:
  "is_digit a \<Longrightarrow> is_digit b \<Longrightarrow> trim [a, b] = [a, b]"
  by (simp add: trim_def is_digit_chars)

lemma trim_digits4 [simp]:
  "is_digit a \<Longrightarrow> is_digit b \<Longrightarrow> is_digit c \<Longrightarrow> is_digit d \<Longrightarrow> trim [a, b, c, d] = [a, b, c, d]"
  by (simp add: trim_def is_digit_chars)

lemma Number_digits2:
  "is_digit a \<Longrightarrow> is_digit b \<Longrightarrow> Number [a, b] = Some (digits_value [a, b])"
  by (simp add: Number_def is_digit_chars)

lemma Number_digits4:
  "is_digit a \<Longrightarrow> is_digit b \<Longrightarrow> is_digit c \<Longrightarrow> is_digit d \<Longrightarrow>
   Number [a, b, c, d] = Some (digits_value [a, b, c, d])"
  by (simp add: Number_def is_digit_chars)

lemma parseDateSafe_parts:
  assumes "is_digit y1" "is_digit y2" "is_digit y3" "is_digit y4"
    "is_digit m1" "is_digit m2" "is_digit d1" "is_digit d2"
    and "rest = [] \<or> (\<exists>time. rest = CHR ''T'' # time)"
  shows "parseDateSafe now
           (Some ([y1, y2, y3, y4] @ ''-'' @ [m1, m2] @ ''-'' @ [d1, d2] @ rest)) =
         new_Date (Some (digits_value [y1, y2, y3, y4]))
                  (Some (digits_value [m1, m2] - 1))
                  (Some (digits_value [d1, d2]))"
proof -
  let ?ten = "[y1, y2, y3, y4, CHR ''-'', m1, m2, CHR ''-'', d1, d2]"
  have str: "[y1, y2, y3, y4] @ ''-'' @ [m1, m2] @ ''-'' @ [d1, d2] @ rest = ?ten @ rest"
    by simp
  have clean: "takeWhile (\<lambda>c. c \<noteq> CHR ''T'') (?ten @ rest) = ?ten"
    using assms by (auto simp: is_digit_chars)
  have split: "split_on (\<lambda>c. c = CHR ''-'' \<or> c = CHR ''/'') ?ten
               = [y1, y2, y3, y4] # [m1, m2] # [d1, d2] # []"
    using assms by (simp add: is_digit_chars)
  have ne: "?ten @ rest \<noteq> []" by simp
  show ?thesis
    unfolding parseDateSafe_def str option.case clean split Let_def
    using assms(1-8) ne
    by (simp add: element_def Number_digits2 Number_digits4
             del: new_Date.simps append.simps)
qed

text \<open>
  Four digits give a year up to 9999, and the days of the years from 100 to 9999 lie well
  within the range of time values.
\<close>

lemma digit_value_le: "is_digit c \<Longrightarrow> digit_value c \<le> 9"
  by (simp add: is_digit_def digit_value_def)

lemma digits_value4_le:
  assumes "is_digit a" "is_digit b" "is_digit c" "is_digit d"
  shows "digits_value [a, b, c, d] \<le> 9999"
  using assms[THEN digit_value_le] by (simp add: digits_value_def)

lemma MakeDay_four_digit_year:
  assumes "0 \<le> m" "m \<le> 11" "1 \<le> d" "d \<le> DaysInMonth y m" "100 \<le> y" "y \<le> 9999"
  shows "- 100000000 \<le> MakeDay y m d" "MakeDay y m d \<le> 100000000"
proof -
  have md: "MakeDay y m d = DayFromYear y + (DaysBeforeMonth y m + d - 1)"
    using MakeDay_in_month[OF assms(1,2), of y d] by simp
  have r: "0 \<le> DaysBeforeMonth y m + d - 1" "DaysBeforeMonth y m + d - 1 < 366"
    using DaysBeforeMonth_range[OF assms(1-4)] DaysInYear_bounds[of y] by auto
  have "146097 * (y - 1970) \<le> 146097 * 8029" using assms(6) by simp
  then have "400 * DayFromYear y \<le> 146097 * 8029 + 600"
    using DayFromYear_approx(1)[of y] by linarith
  then have hi: "DayFromYear y \<le> 3000000" by simp
  have "146097 * (- 1870) \<le> 146097 * (y - 1970)" using assms(5) by simp
  then have "146097 * (- 1870) - 600 \<le> 400 * DayFromYear y"
    using DayFromYear_approx(2)[of y] by linarith
  then have lo: "- 700000 \<le> DayFromYear y" by simp
  show "- 100000000 \<le> MakeDay y m d" using lo r(1) unfolding md by linarith
  show "MakeDay y m d \<le> 100000000" using hi r(2) unfolding md by linarith
qed


text \<open>
  C9. For every text of four digits, \<open>-\<close>, two digits, \<open>-\<close>, two digits,
  alone or followed by \<open>T\<close> and a time, that names a day of a month of a year from 0100
  on, \<open>parseDateSafe\<close> gives the same date with and without the time, and that date is
  local midnight of the day with exactly that year, month and day.
\<close>

theorem parseDateSafe_local_date:
  assumes digits: "list_all is_digit [y1, y2, y3, y4, m1, m2, d1, d2]"
    and rest: "rest = [] \<or> (\<exists>time. rest = CHR ''T'' # time)"
    and year: "100 \<le> digits_value [y1, y2, y3, y4]"
    and month: "1 \<le> digits_value [m1, m2]" "digits_value [m1, m2] \<le> 12"
    and day: "1 \<le> digits_value [d1, d2]"
      "digits_value [d1, d2]
         \<le> DaysInMonth (digits_value [y1, y2, y3, y4]) (digits_value [m1, m2] - 1)"
  shows "parseDateSafe now
           (Some ([y1, y2, y3, y4] @ ''-'' @ [m1, m2] @ ''-'' @ [d1, d2] @ rest))
         = parseDateSafe now (Some ([y1, y2, y3, y4] @ ''-'' @ [m1, m2] @ ''-'' @ [d1, d2]))
       \<and> getFullYear (parseDateSafe now
           (Some ([y1, y2, y3, y4] @ ''-'' @ [m1, m2] @ ''-'' @ [d1, d2] @ rest)))
         = Some (digits_value [y1, y2, y3, y4])
       \<and> getMonth (parseDateSafe now
           (Some ([y1, y2, y3, y4] @ ''-'' @ [m1, m2] @ ''-'' @ [d1, d2] @ rest)))
         = Some (digits_value [m1, m2] - 1)
       \<and> getDate (parseDateSafe now
           (Some ([y1, y2, y3, y4] @ ''-'' @ [m1, m2] @ ''-'' @ [d1, d2] @ rest)))
         = Some (digits_value [d1, d2])
       \<and> startOfDay (parseDateSafe now
           (Some ([y1, y2, y3, y4] @ ''-'' @ [m1, m2] @ ''-'' @ [d1, d2] @ rest)))
         = parseDateSafe now
           (Some ([y1, y2, y3, y4] @ ''-'' @ [m1, m2] @ ''-'' @ [d1, d2] @ rest))"
proof -
  let ?y = "digits_value [y1, y2, y3, y4]"
  let ?m = "digits_value [m1, m2]"
  let ?d = "digits_value [d1, d2]"
  have dg: "is_digit y1" "is_digit y2" "is_digit y3" "is_digit y4"
    "is_digit m1" "is_digit m2" "is_digit d1" "is_digit d2"
    using digits by simp_all
  have m: "0 \<le> ?m - 1" "?m - 1 \<le> 11" using month by simp_all
  note civ = civil_MakeDay[OF m day]
  have "?y \<le> 9999" using dg(1-4) by (rule digits_value4_le)
  then have clip: "TimeClip (MakeDay ?y (?m - 1) ?d * msPerDay)
                     = Time (MakeDay ?y (?m - 1) ?d * msPerDay)"
    using MakeDay_four_digit_year[OF m day year] day_in_range[of "MakeDay ?y (?m - 1) ?d"]
    by (intro TimeClip_in_range) simp_all
  have P: "parseDateSafe now
             (Some ([y1, y2, y3, y4] @ ''-'' @ [m1, m2] @ ''-'' @ [d1, d2] @ rest))
           = Time (MakeDay ?y (?m - 1) ?d * msPerDay)"
    using parseDateSafe_parts[OF dg rest, of now] year clip by simp
  have P0: "parseDateSafe now
             (Some ([y1, y2, y3, y4] @ ''-'' @ [m1, m2] @ ''-'' @ [d1, d2]))
           = Time (MakeDay ?y (?m - 1) ?d * msPerDay)"
    using parseDateSafe_parts[OF dg, of "[]" now] year clip by simp
  show ?thesis
    unfolding P P0 by (simp add: civ clip)
qed

theorem parseDateSafe_local_date_witness:
  "getFullYear (parseDateSafe (Time 0) (Some ''2025-06-05T10:20:30.000Z'')) = Some 2025
   \<and> getMonth (parseDateSafe (Time 0) (Some ''2025-06-05T10:20:30.000Z'')) = Some 5
   \<and> getDate (parseDateSafe (Time 0) (Some ''2025-06-05T10:20:30.000Z'')) = Some 5
   \<and> parseDateSafe (Time 0) (Some ''2025-06-05T10:20:30.000Z'')
       = parseDateSafe (Time 0) (Some ''2025-06-05'')"
proof -
  have digits: "list_all is_digit
      [CHR ''2'', CHR ''0'', CHR ''2'', CHR ''5'', CHR ''0'', CHR ''6'', CHR ''0'', CHR ''5'']"
    by code_simp
  have rest: "''T10:20:30.000Z'' = [] \<or> (\<exists>time. ''T10:20:30.000Z'' = CHR ''T'' # time)"
    by simp
  have year: "100 \<le> digits_value [CHR ''2'', CHR ''0'', CHR ''2'', CHR ''5'']"
    by code_simp
  have month: "1 \<le> digits_value [CHR ''0'', CHR ''6'']"
    "digits_value [CHR ''0'', CHR ''6''] \<le> 12"
    by code_simp+
  have day: "1 \<le> digits_value [CHR ''0'', CHR ''5'']"
    "digits_value [CHR ''0'', CHR ''5'']
       \<le> DaysInMonth (digits_value [CHR ''2'', CHR ''0'', CHR ''2'', CHR ''5''])
            (digits_value [CHR ''0'', CHR ''6''] - 1)"
    by code_simp+
  have v: "digits_value [CHR ''2'', CHR ''0'', CHR ''2'', CHR ''5''] = 2025"
    "digits_value [CHR ''0'', CHR ''6''] = 6" "digits_value [CHR ''0'', CHR ''5''] = 5"
    by code_simp+
  from parseDateSafe_local_date[OF digits rest year month day, of "Time 0"]
  show ?thesis unfolding v by auto
qed

text \<open>
  For a year from 0000 to 0099 the date built lies in the years 1900 to 1999, and a day
  beyond the end of its month is carried into the next month: \<open>0050-06-15\<close> gives
  15 June 1950 and \<open>2025-02-30\<close> gives 2 March 2025.
\<close>

theorem parseDateSafe_components_counterexample:
  "getFullYear (parseDateSafe (Time 0) (Some ''0050-06-15'')) = Some 1950
   \<and> getMonth (parseDateSafe (Time 0) (Some ''0050-06-15'')) = Some 5
   \<and> getDate (parseDateSafe (Time 0) (Some ''0050-06-15'')) = Some 15
   \<and> getFullYear (parseDateSafe (Time 0) (Some ''2025-02-30'')) = Some 2025
   \<and> getMonth (parseDateSafe (Time 0) (Some ''2025-02-30'')) = Some 2
   \<and> getDate (parseDateSafe (Time 0) (Some ''2025-02-30'')) = Some 2"
  by code_simp


lemma API_URL_set [simp]: "API_URL \<noteq> []"
  by (simp add: API_URL_def)

text \<open>
  C10. The URL of the store is set, and \<open>getAllTripsFromCloud\<close> resolves for every reply:
  to the empty list when the request fails, when the body is not JSON or is \<open>null\<close>, when
  the reply has the status \<open>error\<close> and when it has no array of trips, and to the
  converted list of trips otherwise.
\<close>

theorem getAllTripsFromCloud_resolves:
  "API_URL \<noteq> []
   \<and> getAllTripsFromCloud now reply =
     Inr (case reply of
            Rejected e \<Rightarrow> []
          | NotJson \<Rightarrow> []
          | JsonNull \<Rightarrow> []
          | Json data \<Rightarrow>
              if json_status data = Some ''error'' then []
              else (case json_trips data of
                      None \<Rightarrow> []
                    | Some ts \<Rightarrow>
                        map (\<lambda>t. \<lparr>id = json_id t,
                                   startDate = parseDateSafe now (json_startDate t),
                                   endDate = parseDateSafe now (json_endDate t),
                                   lastUpdated = json_lastUpdated t\<rparr>) ts))"
  by (simp add: getAllTripsFromCloud_def split: Reply.splits option.splits)

lemma getAllTripsFromCloud_Inr: "\<exists>data. getAllTripsFromCloud now reply = Inr data"
  by (simp add: getAllTripsFromCloud_def split: Reply.splits option.splits sum.splits)

section \<open>Synchronisation and saving\<close>

text \<open>
  C5. For every reply to a background poll, with \<open>data\<close> the list fetched: when the
  fingerprint of \<open>data\<close> is the last one applied the state is unchanged (the list is not
  replaced, nothing is notified), and when it differs the list becomes \<open>data\<close> and the
  fingerprint is updated.
\<close>

theorem fetchTrips_fingerprint:
  "\<exists>data. getAllTripsFromCloud now reply = Inr data
     \<and> (currentHash data = lastServerHash st \<longrightarrow> fetchTrips True now reply st = st)
     \<and> (currentHash data \<noteq> lastServerHash st \<longrightarrow>
          trips (fetchTrips True now reply st) = data
          \<and> lastServerHash (fetchTrips True now reply st) = currentHash data)"
proof -
  obtain data where d: "getAllTripsFromCloud now reply = Inr data"
    using getAllTripsFromCloud_Inr by blast
  show ?thesis
    by (rule exI[of _ data]) (simp add: d fetchTrips_def showToast_def Let_def)
qed

theorem fetchTrips_fingerprint_witness:
  "getAllTripsFromCloud (Time 0)
      (Json \<lparr>json_status = None, json_message = None, json_new_id = None,
             json_trips = Some [\<lparr>json_id = Some ''T1'', json_startDate = Some ''2025-06-05'',
                                  json_endDate = Some ''2025-06-20'',
                                  json_lastUpdated = Some ''v1''\<rparr>]\<rparr>)
     = Inr [\<lparr>id = Some ''T1'', startDate = dateOfDay 20244, endDate = dateOfDay 20259,
             lastUpdated = Some ''v1''\<rparr>]
   \<and> fetchTrips True (Time 0)
      (Json \<lparr>json_status = None, json_message = None, json_new_id = None,
             json_trips = Some [\<lparr>json_id = Some ''T1'', json_startDate = Some ''2025-06-05'',
                                  json_endDate = Some ''2025-06-20'',
                                  json_lastUpdated = Some ''v1''\<rparr>]\<rparr>)
      (initialState\<lparr>trips := [\<lparr>id = Some ''T1'', startDate = dateOfDay 20244,
                                  endDate = dateOfDay 20259, lastUpdated = Some ''v1''\<rparr>],
                     lastServerHash := currentHash
                        [\<lparr>id = Some ''T1'', startDate = dateOfDay 20244,
                          endDate = dateOfDay 20259, lastUpdated = Some ''v1''\<rparr>]\<rparr>)
     = initialState\<lparr>trips := [\<lparr>id = Some ''T1'', startDate = dateOfDay 20244,
                                  endDate = dateOfDay 20259, lastUpdated = Some ''v1''\<rparr>],
                     lastServerHash := currentHash
                        [\<lparr>id = Some ''T1'', startDate = dateOfDay 20244,
                          endDate = dateOfDay 20259, lastUpdated = Some ''v1''\<rparr>]\<rparr>
   \<and> trips (fetchTrips True (Time 0)
      (Json \<lparr>json_status = None, json_message = None, json_new_id = None,
             json_trips = Some [\<lparr>json_id = Some ''T1'', json_startDate = Some ''2025-06-05'',
                                  json_endDate = Some ''2025-06-20'',
                                  json_lastUpdated = Some ''v1''\<rparr>]\<rparr>)
      initialState)
     = [\<lparr>id = Some ''T1'', startDate = dateOfDay 20244, endDate = dateOfDay 20259,
         lastUpdated = Some ''v1''\<rparr>]"
proof -
  let ?reply = "Json \<lparr>json_status = None, json_message = None, json_new_id = None,
             json_trips = Some [\<lparr>json_id = Some ''T1'', json_startDate = Some ''2025-06-05'',
                                  json_endDate = Some ''2025-06-20'',
                                  json_lastUpdated = Some ''v1''\<rparr>]\<rparr>"
  let ?T = "\<lparr>id = Some ''T1'', startDate = dateOfDay 20244, endDate = dateOfDay 20259,
             lastUpdated = Some ''v1''\<rparr>"
  let ?st = "initialState\<lparr>trips := [?T], lastServerHash := currentHash [?T]\<rparr>"
  have p: "parseDateSafe (Time 0) (Some ''2025-06-05'') = dateOfDay 20244"
    "parseDateSafe (Time 0) (Some ''2025-06-20'') = dateOfDay 20259"
    by code_simp+
  have d: "getAllTripsFromCloud (Time 0) ?reply = Inr [?T]"
    by (simp add: getAllTripsFromCloud_def p)
  have same: "currentHash [?T] = lastServerHash ?st" by simp
  have differs: "currentHash [?T] \<noteq> lastServerHash initialState"
    by (simp add: initialState_def currentHash_def JSON_stringify_def js_plus_def)
  from fetchTrips_fingerprint[of "Time 0" ?reply ?st] d same
  have 1: "fetchTrips True (Time 0) ?reply ?st = ?st" by auto
  from fetchTrips_fingerprint[of "Time 0" ?reply initialState] d differs
  have 2: "trips (fetchTrips True (Time 0) ?reply initialState) = [?T]" by auto
  show ?thesis using d 1 2 by simp
qed


text \<open>
  A fetch that fails resolves to the empty list, and \<open>fetchTrips\<close> applies it like any
  other list: the trips are kept only if the last fingerprint applied is that of the
  empty list.
\<close>

lemma getAllTripsFromCloud_failure:
  assumes "reply = Rejected e \<or> reply = NotJson \<or> reply = JsonNull
           \<or> (\<exists>d. reply = Json d \<and> json_status d = Some ''error'')"
  shows "getAllTripsFromCloud now reply = Inr []"
  using assms by (auto simp: getAllTripsFromCloud_def)

lemma fetchTrips_failure:
  assumes "reply = Rejected e \<or> reply = NotJson \<or> reply = JsonNull
           \<or> (\<exists>d. reply = Json d \<and> json_status d = Some ''error'')"
  shows "trips (fetchTrips silent now reply st)
           = (if lastServerHash st = currentHash [] then trips st else [])"
  using getAllTripsFromCloud_failure[OF assms, of now]
  by (simp add: fetchTrips_def Let_def showToast_def)

text \<open>
  C2. A failed fetch of the trip list leaves the list held in memory untouched. The code
  does not: after the list \<open>[T1]\<close> has been fetched, a background fetch that fails in
  transport, one whose body is not JSON and one that reports an error each leave the
  application with no trips.
\<close>


theorem fetchTrips_failed_fetch_empties_list:
  "trips (fetchTrips False (Time 0)
      (Json \<lparr>json_status = None, json_message = None, json_new_id = None,
             json_trips = Some [\<lparr>json_id = Some ''T1'', json_startDate = Some ''2025-06-05'',
                                  json_endDate = Some ''2025-06-20'',
                                  json_lastUpdated = None\<rparr>]\<rparr>)
      initialState)
     = [\<lparr>id = Some ''T1'', startDate = dateOfDay 20244, endDate = dateOfDay 20259,
         lastUpdated = None\<rparr>]
   \<and> trips (fetchTrips True (Time 0) (Rejected (TypeError (Msg ''Failed to fetch'')))
       (fetchTrips False (Time 0)
         (Json \<lparr>json_status = None, json_message = None, json_new_id = None,
                json_trips = Some [\<lparr>json_id = Some ''T1'', json_startDate = Some ''2025-06-05'',
                                     json_endDate = Some ''2025-06-20'',
                                     json_lastUpdated = None\<rparr>]\<rparr>)
         initialState))
     = []
   \<and> trips (fetchTrips True (Time 0) NotJson
       (fetchTrips False (Time 0)
         (Json \<lparr>json_status = None, json_message = None, json_new_id = None,
                json_trips = Some [\<lparr>json_id = Some ''T1'', json_startDate = Some ''2025-06-05'',
                                     json_endDate = Some ''2025-06-20'',
                                     json_lastUpdated = None\<rparr>]\<rparr>)
         initialState))
     = []
   \<and> trips (fetchTrips True (Time 0)
       (Json \<lparr>json_status = Some ''error'', json_message = Some ''quota exceeded'',
              json_new_id = None, json_trips = None\<rparr>)
       (fetchTrips False (Time 0)
         (Json \<lparr>json_status = None, json_message = None, json_new_id = None,
                json_trips = Some [\<lparr>json_id = Some ''T1'', json_startDate = Some ''2025-06-05'',
                                     json_endDate = Some ''2025-06-20'',
                                     json_lastUpdated = None\<rparr>]\<rparr>)
         initialState))
     = []"
  by code_simp









end
